theory Spec2Isabelle
  imports Complex_Main "HOL-Library.Sublist"
begin

section \<open>JavaScript values used by the action\<close>

text \<open>
  The action is a single TypeScript file, \<^verbatim>\<open>src/action.ts\<close>. Strings are modelled as
  \<^typ>\<open>string\<close>; \<^const>\<open>length\<close> stands for the \<^verbatim>\<open>.length\<close> of a JavaScript string.
  Logging through \<^verbatim>\<open>core.info\<close> and \<^verbatim>\<open>core.warning\<close> does not influence any returned
  value and is left out of the model.
\<close>

text \<open>
  A character limit is a JavaScript number that may be \<^verbatim>\<open>Infinity\<close> (the default of
  \<^verbatim>\<open>toHTMLTable\<close>, and the limit of every header row).
\<close>

datatype char_limit = Finite int | Infinity

fun fits :: "int \<Rightarrow> char_limit \<Rightarrow> bool" where
  "fits c Infinity = True"
| "fits c (Finite l) = (c \<le> l)"

text \<open>
  \<^verbatim>\<open>Array.prototype.map\<close> hands the callback the element and its index.
\<close>

fun mapFrom :: "nat \<Rightarrow> ('a \<Rightarrow> nat \<Rightarrow> 'b) \<Rightarrow> 'a list \<Rightarrow> 'b list" where
  "mapFrom i f [] = []"
| "mapFrom i f (x # xs) = f x i # mapFrom (Suc i) f xs"

definition array_map :: "('a \<Rightarrow> nat \<Rightarrow> 'b) \<Rightarrow> 'a list \<Rightarrow> 'b list" where
  "array_map f xs = mapFrom 0 f xs"

section \<open>Rendering rows under a character limit\<close>

text \<open>
  \<^verbatim>\<open>toHTMLTableRow\<close> (lines 197 to 224). The callback of \<^verbatim>\<open>rows.map\<close> closes over the
  two variables \<^verbatim>\<open>charCount\<close> and \<^verbatim>\<open>truncated\<close>; the model threads them through the
  rows. The first argument of \<open>rowsLoop\<close> is the whole array, which the callback reads as
  \<^verbatim>\<open>rows[0] ?? []\<close>.
\<close>

definition rowTag :: "(string \<Rightarrow> nat \<Rightarrow> string) \<Rightarrow> string list \<Rightarrow> string" where
  "rowTag formatCellCB row = ''<tr>'' @ concat (array_map formatCellCB row) @ ''</tr>''"

definition dummyRow :: "string list list \<Rightarrow> string list" where
  "dummyRow rows =
     [''truncated...''] @
     replicate (nat (max (int (length (case rows of [] \<Rightarrow> [] | r # _ \<Rightarrow> r)) - 1) 0)) ''''"

fun rowsLoop ::
  "string list list \<Rightarrow> (string \<Rightarrow> nat \<Rightarrow> string) \<Rightarrow> char_limit \<Rightarrow>
   string list list \<Rightarrow> int \<Rightarrow> bool \<Rightarrow> string list" where
  "rowsLoop rows formatCellCB charLimit [] charCount truncated = []"
| "rowsLoop rows formatCellCB charLimit (row # rest) charCount truncated =
     (let tag = rowTag formatCellCB row;
          charCount' = charCount + int (length tag)
      in if fits charCount' charLimit
         then tag # rowsLoop rows formatCellCB charLimit rest charCount' truncated
         else if truncated
         then '''' # rowsLoop rows formatCellCB charLimit rest charCount' truncated
         else rowTag formatCellCB (dummyRow rows)
                # rowsLoop rows formatCellCB charLimit rest charCount' True)"

definition openingTag :: "string \<Rightarrow> string" where
  "openingTag wrapperElement = ''<'' @ wrapperElement @ ''>''"

definition closingTag :: "string \<Rightarrow> string" where
  "closingTag wrapperElement = ''</'' @ wrapperElement @ ''>''"

definition wrapperCost :: "string \<Rightarrow> int" where
  "wrapperCost wrapperElement =
     int (length (openingTag wrapperElement)) + int (length (closingTag wrapperElement))"

definition toHTMLTableRow ::
  "string list list \<Rightarrow> (string \<Rightarrow> nat \<Rightarrow> string) \<Rightarrow> string \<Rightarrow> char_limit \<Rightarrow> string" where
  "toHTMLTableRow rows formatCellCB wrapperElement charLimit =
     openingTag wrapperElement
     @ concat (rowsLoop rows formatCellCB charLimit rows (wrapperCost wrapperElement) False)
     @ closingTag wrapperElement"

text \<open>
  \<^verbatim>\<open>toHTMLTable\<close> (lines 174 to 195) with its two cell renderers.
\<close>

definition thCell :: "string \<Rightarrow> nat \<Rightarrow> string" where
  "thCell cell i = ''<th>'' @ cell @ ''</th>''"

definition tdCell :: "string \<Rightarrow> nat \<Rightarrow> string" where
  "tdCell cell i =
     ''<td'' @ (if i > 0 then '' nowrap='' @ [CHR 0x22] @ ''nowrap'' @ [CHR 0x22]
                              @ '' align='' @ [CHR 0x22] @ ''right'' @ [CHR 0x22]
                else '''')
     @ ''>'' @ cell @ ''</td>''"

definition toHTMLTable :: "string list \<Rightarrow> string list list \<Rightarrow> char_limit \<Rightarrow> string" where
  "toHTMLTable headers rows charLimit =
     (let openingT = ''<table width='' @ [CHR 0x22] @ ''100%'' @ [CHR 0x22] @ ''>'';
          closingT = ''</table>'';
          headerHtml = toHTMLTableRow [headers] thCell ''thead'' Infinity;
          remainingChars =
            (case charLimit of
               Infinity \<Rightarrow> Infinity
             | Finite l \<Rightarrow>
                 Finite (l - (int (length openingT) + int (length closingT)
                              + int (length headerHtml))));
          bodyHtml = toHTMLTableRow rows tdCell ''tbody'' remainingChars
      in openingT @ headerHtml @ bodyHtml @ closingT)"

subsection \<open>Auxiliary notions for stating the properties\<close>

text \<open>
  The running character count after a sequence of rows, started at \<open>c\<close>.
\<close>

definition runningCount :: "(string \<Rightarrow> nat \<Rightarrow> string) \<Rightarrow> int \<Rightarrow> string list list \<Rightarrow> int" where
  "runningCount formatCellCB c rs = c + (\<Sum>r\<leftarrow>rs. int (length (rowTag formatCellCB r)))"

text \<open>
  The number of leading rows that are rendered verbatim: the rows before the first one
  whose addition pushes the running count above the limit.
\<close>

fun keptCount :: "(string \<Rightarrow> nat \<Rightarrow> string) \<Rightarrow> char_limit \<Rightarrow> int \<Rightarrow> string list list \<Rightarrow> nat" where
  "keptCount f cl c [] = 0"
| "keptCount f cl c (r # rs) =
     (if fits (c + int (length (rowTag f r))) cl
      then Suc (keptCount f cl (c + int (length (rowTag f r))) rs) else 0)"

text \<open>
  The row sequence that the renderer emits: the kept rows, followed by the placeholder row
  when some row did not fit.
\<close>

definition emittedRows ::
  "(string \<Rightarrow> nat \<Rightarrow> string) \<Rightarrow> string \<Rightarrow> char_limit \<Rightarrow> string list list \<Rightarrow> string list list" where
  "emittedRows f w cl rows =
     (let k = keptCount f cl (wrapperCost w) rows
      in take k rows @ (if k < length rows then [dummyRow rows] else []))"

section \<open>Numbers in template literals\<close>

text \<open>
  Test counts are integers; a template literal prints them in decimal.
\<close>

function showNat :: "nat \<Rightarrow> string" where
  "showNat n =
     (if n < 10 then [''0123456789'' ! n]
      else showNat (n div 10) @ [''0123456789'' ! (n mod 10)])"
  by pat_completeness auto
termination
  by (relation "measure id") auto

declare showNat.simps [simp del]

definition showInt :: "int \<Rightarrow> string" where
  "showInt i = (if i < 0 then ''-'' @ showNat (nat (- i)) else showNat (nat i))"

text \<open>
  A coverage percentage is a JavaScript number or \<^verbatim>\<open>undefined\<close> (the type says
  \<^verbatim>\<open>number\<close>, and \<^verbatim>\<open>summaryToRow\<close> silences the checker with \<^verbatim>\<open>pct!\<close>). Numbers are
  modelled by rationals. A whole number below \<open>10\<^sup>2\<^sup>1\<close> prints in decimal; how any other
  number prints is floating-point formatting, which is not modelled and is taken as the
  parameter \<open>fracStr\<close>. A relational comparison converts \<^verbatim>\<open>undefined\<close> to \<^verbatim>\<open>NaN\<close> and is
  false.
\<close>

datatype js_number = JsUndefined | JsNumber rat

definition numberToString :: "(rat \<Rightarrow> string) \<Rightarrow> rat \<Rightarrow> string" where
  "numberToString fracStr x =
     (if x = of_int \<lfloor>x\<rfloor> \<and> \<bar>x\<bar> < 10 ^ 21 then showInt \<lfloor>x\<rfloor> else fracStr x)"

fun toStr :: "(rat \<Rightarrow> string) \<Rightarrow> js_number \<Rightarrow> string" where
  "toStr fracStr JsUndefined = ''undefined''"
| "toStr fracStr (JsNumber x) = numberToString fracStr x"

fun js_greater :: "js_number \<Rightarrow> rat \<Rightarrow> bool" where
  "js_greater JsUndefined k = False"
| "js_greater (JsNumber x) k = (k < x)"

text \<open>
  \<^verbatim>\<open>Array.prototype.join\<close> on an array of strings.
\<close>

fun join :: "string \<Rightarrow> string list \<Rightarrow> string" where
  "join sep [] = ''''"
| "join sep [x] = x"
| "join sep (x # y # ys) = x @ sep @ join sep (y # ys)"

section \<open>The results structure and the values built from it\<close>

text \<open>
  The parts of Jest's \<^verbatim>\<open>FormattedTestResults\<close> that the action reads. An optional field
  is an \<^typ>\<open>'a option\<close>. The coverage map is held as the list of its entries, file path
  and file coverage, in the order in which the map enumerates its files; the type \<open>'fc\<close>
  of a file coverage belongs to the coverage library.
\<close>

record Location =
  line :: int
  column :: int

record AssertionResult =
  status :: string
  ancestorTitles :: "string list"
  title :: string
  location :: "Location option"
  failureMessages :: "string list option"

record TestResult =
  name :: string
  assertionResults :: "AssertionResult list"

record 'fc FormattedTestResults =
  success :: bool
  numPassedTests :: int
  numPassedTestSuites :: int
  numFailedTests :: int
  numTotalTests :: int
  numTotalTestSuites :: int
  testResults :: "TestResult list"
  coverageMap :: "(string \<times> 'fc) list option"

text \<open>
  The coverage summary of the coverage library: four metrics, each with a percentage.
\<close>

record Totals =
  pct :: js_number

record CoverageSummary =
  statements :: Totals
  branches :: Totals
  "functions" :: Totals
  lines :: Totals

text \<open>The type \<^verbatim>\<open>File\<close> (lines 22 to 27).\<close>

record File =
  relative :: string
  fileName :: string
  path :: string
  coverage :: CoverageSummary

text \<open>
  The GitHub context: \<^verbatim>\<open>context.repo\<close>, \<^verbatim>\<open>context.sha\<close>,
  \<^verbatim>\<open>context.payload.pull_request?.number\<close> and \<^verbatim>\<open>context.payload.pull_request?.head.sha\<close>.
\<close>

record Repo =
  owner :: string
  repo :: string

record Context =
  context_repo :: Repo
  context_sha :: string
  pull_request_number :: "int option"
  pull_request_head_sha :: "string option"

text \<open>
  The payloads handed to the GitHub client. Both start with the spread of
  \<^verbatim>\<open>context.repo\<close>, so they extend \<^typ>\<open>Repo\<close>.
\<close>

record Annotation =
  path :: string
  start_line :: int
  end_line :: int
  annotation_level :: string
  title :: string
  message :: string

record Output =
  title :: string
  "text" :: string
  summary :: string
  annotations :: "Annotation list"

record CheckPayload = Repo +
  head_sha :: string
  name :: string
  status :: string
  conclusion :: string
  "output" :: Output

record CommentPayload = Repo +
  body :: string
  issue_number :: int

text \<open>
  What the action takes from its libraries and from the process: the \<^verbatim>\<open>path\<close> module,
  the coverage library (the summary of a whole map and of one file), \<^verbatim>\<open>strip-ansi\<close>,
  the formatting of fractional numbers, and \<^verbatim>\<open>process.cwd()\<close> at load time.
\<close>

record 'fc Lib =
  path_relative :: "string \<Rightarrow> string \<Rightarrow> string"
  path_basename :: "string \<Rightarrow> string"
  path_dirname :: "string \<Rightarrow> string"
  getCoverageSummary :: "(string \<times> 'fc) list \<Rightarrow> CoverageSummary"
  toSummary :: "'fc \<Rightarrow> CoverageSummary"
  strip :: "string \<Rightarrow> string"
  fracStr :: "rat \<Rightarrow> string"
  rootPath :: string

definition ACTION_NAME :: string where
  "ACTION_NAME = ''jest-github-action''"

definition COVERAGE_HEADER :: string where
  "COVERAGE_HEADER = ''# :open_umbrella: Code Coverage''"

definition CHAR_LIMIT :: int where
  "CHAR_LIMIT = 60000"

text \<open>An exception, with its message.\<close>

datatype js_error = TypeError string

fun errorMessage :: "js_error \<Rightarrow> string" where
  "errorMessage (TypeError m) = m"

section \<open>The coverage table\<close>

text \<open>\<^verbatim>\<open>formatIfPoor\<close> (lines 154 to 165) and \<^verbatim>\<open>summaryToRow\<close> (lines 167 to 172).\<close>

definition formatIfPoor :: "(rat \<Rightarrow> string) \<Rightarrow> js_number \<Rightarrow> string" where
  "formatIfPoor fs number =
     (if js_greater number 80 then toStr fs number @ '' :green_circle:''
      else if js_greater number 65 then toStr fs number @ '' :yellow_circle:''
      else if js_greater number 50 then toStr fs number @ '' :orange_circle:''
      else toStr fs number @ '' :red_circle:'')"

definition summaryToRow :: "(rat \<Rightarrow> string) \<Rightarrow> CoverageSummary \<Rightarrow> string list" where
  "summaryToRow fs f =
     [formatIfPoor fs (pct (statements f)),
      formatIfPoor fs (pct (branches f)),
      formatIfPoor fs (pct (functions f)),
      formatIfPoor fs (pct (lines f))]"

subsection \<open>Plain objects as dictionaries\<close>

text \<open>
  \<^verbatim>\<open>groupByPath\<close> collects the files in a plain object created by \<^verbatim>\<open>{}\<close>. The object is
  modelled by the list of its own properties in creation order. Two rules of the language
  matter for it.

  The operator \<^verbatim>\<open>in\<close> also finds the properties inherited from \<^verbatim>\<open>Object.prototype\<close>.

  \<^verbatim>\<open>Object.entries\<close> enumerates the own properties whose key is an array index (the
  canonical decimal form of an integer from 0 to \<open>2\<^sup>3\<^sup>2 - 2\<close>) first, in ascending numeric
  order, and the other keys after them, in creation order.
\<close>

type_synonym 'v js_object = "(string \<times> 'v) list"

definition objectPrototypeKeys :: "string list" where
  "objectPrototypeKeys =
     [''constructor'', ''__defineGetter__'', ''__defineSetter__'', ''hasOwnProperty'',
      ''__lookupGetter__'', ''__lookupSetter__'', ''isPrototypeOf'', ''propertyIsEnumerable'',
      ''toString'', ''valueOf'', ''__proto__'', ''toLocaleString'']"

definition hasProperty :: "string \<Rightarrow> 'v js_object \<Rightarrow> bool" where
  "hasProperty k obj = (k \<in> set (map fst obj) \<or> k \<in> set objectPrototypeKeys)"

definition isDigit :: "char \<Rightarrow> bool" where
  "isDigit c = (c \<in> set ''0123456789'')"

definition decimalValue :: "string \<Rightarrow> nat" where
  "decimalValue s = foldl (\<lambda>acc c. 10 * acc + (of_char c - 48)) 0 s"

definition isArrayIndex :: "string \<Rightarrow> bool" where
  "isArrayIndex s =
     (s \<noteq> [] \<and> list_all isDigit s \<and> (s = ''0'' \<or> hd s \<noteq> CHR ''0'')
      \<and> decimalValue s < 2 ^ 32 - 1)"

definition objectEntries :: "'v js_object \<Rightarrow> (string \<times> 'v) list" where
  "objectEntries obj =
     sort_key (\<lambda>p. decimalValue (fst p)) (filter (\<lambda>p. isArrayIndex (fst p)) obj)
     @ filter (\<lambda>p. \<not> isArrayIndex (fst p)) obj"

text \<open>
  \<^verbatim>\<open>groupByPath\<close> (lines 226 to 237). When the directory is not an own property but
  \<^verbatim>\<open>in\<close> finds it on the prototype, no array is stored, \<^verbatim>\<open>dirs[file.path]\<close> reads the
  inherited member, and calling its missing \<^verbatim>\<open>push\<close> throws.
\<close>

definition groupByPath :: "File list js_object \<Rightarrow> File \<Rightarrow> js_error + File list js_object" where
  "groupByPath dirs file =
     (let dirs' = (if \<not> hasProperty (File.path file) dirs
                   then dirs @ [(File.path file, [])] else dirs)
      in if File.path file \<in> set (map fst dirs')
         then Inr (map (\<lambda>(k, fs). if k = File.path file then (k, fs @ [file]) else (k, fs)) dirs')
         else Inl (TypeError ''dirs[file.path].push is not a function''))"

text \<open>\<^verbatim>\<open>Array.prototype.reduce\<close> with a callback that may throw.\<close>

fun reduce :: "('b \<Rightarrow> 'a \<Rightarrow> js_error + 'b) \<Rightarrow> 'b \<Rightarrow> 'a list \<Rightarrow> js_error + 'b" where
  "reduce f acc [] = Inr acc"
| "reduce f acc (x # xs) = (case f acc x of Inl e \<Rightarrow> Inl e | Inr acc' \<Rightarrow> reduce f acc' xs)"

text \<open>\<^verbatim>\<open>truncateLeft\<close> (lines 239 to 247) and \<^verbatim>\<open>truncateRight\<close> (lines 249 to 257).\<close>

definition truncateLeft :: "string \<Rightarrow> int \<Rightarrow> string" where
  "truncateLeft str len =
     (if len > int (length str) then str
      else ''...'' @ drop (nat (int (length str) - len)) str)"

definition truncateRight :: "string \<Rightarrow> int \<Rightarrow> string" where
  "truncateRight str len =
     (if len > int (length str) then str
      else take (nat len) str @ ''...'')"

text \<open>
  \<^verbatim>\<open>getCoverageTable\<close> (lines 259 to 308). The parameter \<^verbatim>\<open>cwd\<close> is not used by the
  source; paths are made relative to \<^verbatim>\<open>rootPath\<close>. \<^verbatim>\<open>fileCoverageFor\<close> is only applied
  to the files the map enumerates, so each file comes with its coverage.
\<close>

definition parseFile :: "'fc Lib \<Rightarrow> string \<times> 'fc \<Rightarrow> File" where
  "parseFile lib entry =
     (let absolute = fst entry;
          relative = path_relative lib (rootPath lib) absolute;
          fileName = path_basename lib relative;
          p = path_dirname lib relative;
          coverage = toSummary lib (snd entry)
      in \<lparr>relative = relative, fileName = fileName, path = p, coverage = coverage\<rparr>)"

definition directoryRows :: "(rat \<Rightarrow> string) \<Rightarrow> string \<times> File list \<Rightarrow> string list list" where
  "directoryRows fs entry =
     [''<b>'' @ truncateLeft (fst entry) 50 @ ''</b>'', '''', '''', '''', '''']
     # map (\<lambda>file. (''<code>'' @ fileName file @ ''</code>'') # summaryToRow fs (coverage file))
         (snd entry)"

definition getCoverageTable ::
  "'fc Lib \<Rightarrow> 'fc FormattedTestResults \<Rightarrow> string \<Rightarrow> js_error + string" where
  "getCoverageTable lib results cwd =
     (case coverageMap results of
        None \<Rightarrow> Inr ''''
      | Some entries \<Rightarrow>
          if length (map fst entries) = 0 then Inr ''''
          else
            (let headers = [''% Stmts'', ''% Branch'', ''% Funcs'', ''% Lines''];
                 summary = summaryToRow (fracStr lib) (getCoverageSummary lib entries);
                 summaryTable = toHTMLTable headers [summary] Infinity;
                 fullHeaders = ''File'' # headers
             in case reduce groupByPath [] (map (parseFile lib) entries) of
                  Inl e \<Rightarrow> Inl e
                | Inr files \<Rightarrow>
                    (let rows = concat (map (directoryRows (fracStr lib)) (objectEntries files));
                         fullTable = toHTMLTable fullHeaders rows (Finite CHAR_LIMIT)
                     in Inr (join ''\<newline>''
                          [COVERAGE_HEADER,
                           summaryTable,
                           '''',
                           ''<details>'',
                           ''<summary>Click to expand</summary>\<newline>'',
                           fullTable,
                           ''</details>'']))))"

text \<open>
  The order in which directories are first seen, for stating how the groups are ordered.
\<close>

fun firstSeen :: "'a list \<Rightarrow> 'a list" where
  "firstSeen [] = []"
| "firstSeen (x # xs) = x # filter (\<lambda>y. y \<noteq> x) (firstSeen xs)"

text \<open>The files stored under a key of the object; none when the key is absent.\<close>

definition groupOf :: "'v list js_object \<Rightarrow> string \<Rightarrow> 'v list" where
  "groupOf obj d = (case map_of obj d of None \<Rightarrow> [] | Some g \<Rightarrow> g)"

section \<open>The check payload\<close>

text \<open>
  \<^verbatim>\<open>String.prototype.replace\<close> with a string pattern replaces the first occurrence of the
  pattern, wherever it stands.
\<close>

fun replace :: "string \<Rightarrow> string \<Rightarrow> string \<Rightarrow> string" where
  "replace pat rep [] = (if pat = [] then rep else [])"
| "replace pat rep (c # cs) =
     (if prefix pat (c # cs) then rep @ drop (length pat) (c # cs)
      else c # replace pat rep cs)"

text \<open>\<^verbatim>\<open>getPullId\<close> (lines 399 to 403) and \<^verbatim>\<open>getSha\<close> (lines 405 to 409).\<close>

definition getPullId :: "Context \<Rightarrow> int" where
  "getPullId ctx = (case pull_request_number ctx of None \<Rightarrow> 0 | Some n \<Rightarrow> n)"

definition getSha :: "Context \<Rightarrow> string" where
  "getSha ctx = (case pull_request_head_sha ctx of None \<Rightarrow> context_sha ctx | Some s \<Rightarrow> s)"

text \<open>
  \<^verbatim>\<open>getAnnotations\<close> (lines 411 to 432); \<^verbatim>\<open>flatMap\<close> and \<^verbatim>\<open>filter\<close> are lodash's.
\<close>

definition flatMap :: "'a list \<Rightarrow> ('a \<Rightarrow> 'b list) \<Rightarrow> 'b list" where
  "flatMap xs f = concat (map f xs)"

definition getAnnotations ::
  "'fc Lib \<Rightarrow> 'fc FormattedTestResults \<Rightarrow> string \<Rightarrow> Annotation list" where
  "getAnnotations lib results cwd =
     (if success results then []
      else flatMap (testResults results) (\<lambda>result.
             map (\<lambda>assertion.
                    \<lparr>Annotation.path = replace cwd '''' (TestResult.name result),
                     start_line = (case location assertion of None \<Rightarrow> 0 | Some l \<Rightarrow> line l),
                     end_line = (case location assertion of None \<Rightarrow> 0 | Some l \<Rightarrow> line l),
                     annotation_level = ''failure'',
                     Annotation.title =
                       join '' > '' (ancestorTitles assertion @ [AssertionResult.title assertion]),
                     message =
                       strip lib (case failureMessages assertion of
                                    None \<Rightarrow> ''''
                                  | Some ms \<Rightarrow> join ''\<newline>\<newline>'' ms)\<rparr>)
                 (filter (\<lambda>a. AssertionResult.status a = ''failed'') (assertionResults result))))"

text \<open>
  \<^verbatim>\<open>getCheckPayload\<close> (lines 321 to 345). The captured output is \<^verbatim>\<open>{ out?, err? }\<close>; an
  absent and an empty string are both falsy.
\<close>

definition getCheckPayload ::
  "'fc Lib \<Rightarrow> Context \<Rightarrow> 'fc FormattedTestResults \<Rightarrow> string \<Rightarrow>
   string option \<times> string option \<Rightarrow> CheckPayload" where
  "getCheckPayload lib ctx results cwd std =
     (let out = fst std; err = snd std in
      \<lparr>owner = owner (context_repo ctx),
       repo = repo (context_repo ctx),
       head_sha = getSha ctx,
       CheckPayload.name = ACTION_NAME,
       CheckPayload.status = ''completed'',
       conclusion = (if success results then ''success'' else ''failure''),
       output =
          \<lparr>Output.title = (if success results then ''Jest tests passed'' else ''Jest tests failed''),
           text = truncateRight
                    ((case out of None \<Rightarrow> '''' | Some s \<Rightarrow> if s \<noteq> '''' then s else '''')
                     @ (case err of None \<Rightarrow> ''''
                        | Some s \<Rightarrow> if s \<noteq> '''' then ''\<newline>\<newline>'' @ s else ''''))
                    CHAR_LIMIT,
           summary =
             (if success results
              then showInt (numPassedTests results) @ '' tests passing in ''
                   @ showInt (numPassedTestSuites results) @ '' suite''
                   @ (if numPassedTestSuites results > 1 then ''s'' else '''') @ ''.''
              else ''Failed tests: '' @ showInt (numFailedTests results) @ ''/''
                   @ showInt (numTotalTests results) @ ''. Failed suites: ''
                   @ showInt (numFailedTests results) @ ''/''
                   @ showInt (numTotalTestSuites results) @ ''.''),
           annotations = getAnnotations lib results cwd\<rparr>\<rparr>)"

text \<open>\<^verbatim>\<open>getCommentPayload\<close> (lines 310 to 319).\<close>

definition getCommentPayload :: "Context \<Rightarrow> string \<Rightarrow> CommentPayload" where
  "getCommentPayload ctx b =
     \<lparr>owner = owner (context_repo ctx),
      repo = repo (context_repo ctx),
      body = b,
      issue_number = getPullId ctx\<rparr>"

section \<open>The end of the run\<close>

text \<open>
  The last part of \<^verbatim>\<open>run\<close> (lines 78 to 102): the coverage comment, the failure of the
  run when tests failed, and the \<^verbatim>\<open>catch\<close> around both. The state of a run records the
  message of the last \<^verbatim>\<open>core.setFailed\<close>. Deleting the previous comments and creating the
  new one are calls to GitHub; they are taken as the parameter \<open>publish\<close>, which may change
  the state (it fails the run when a call is rejected) and may throw. Whether coverage
  comments are wanted is the action input \<^verbatim>\<open>coverage-comment\<close>.
\<close>

record RunState =
  failed :: "string option"

definition setFailed :: "string \<Rightarrow> RunState \<Rightarrow> RunState" where
  "setFailed m st = st\<lparr>failed := Some m\<rparr>"

definition runCoverageAndFinish ::
  "'fc Lib \<Rightarrow> (CommentPayload \<Rightarrow> RunState \<Rightarrow> js_error + RunState) \<Rightarrow> Context \<Rightarrow> bool \<Rightarrow>
   'fc FormattedTestResults \<Rightarrow> string \<Rightarrow> RunState \<Rightarrow> RunState" where
  "runCoverageAndFinish lib publish ctx shouldCommentCoverage results cwd st =
     (case (if getPullId ctx \<noteq> 0 \<and> shouldCommentCoverage
            then (case getCoverageTable lib results cwd of
                    Inl e \<Rightarrow> Inl e
                  | Inr comment \<Rightarrow>
                      if comment \<noteq> '''' then publish (getCommentPayload ctx comment) st
                      else Inr st)
            else Inr st) of
        Inl e \<Rightarrow> setFailed (errorMessage e) st
      | Inr st' \<Rightarrow>
          if \<not> success results then setFailed ''Some jest tests failed.'' st' else st')"

text \<open>
  Stripping a prefix, for comparing \<^const>\<open>replace\<close> with the removal of a leading working
  root.
\<close>

definition stripPrefix :: "string \<Rightarrow> string \<Rightarrow> string" where
  "stripPrefix p s = (if prefix p s then drop (length p) s else s)"

text \<open>
  The captured output as the check shows it: the standard output, followed, when the
  standard error is not empty, by a blank line and the standard error.
\<close>

definition capturedText :: "string option \<times> string option \<Rightarrow> string" where
  "capturedText std =
     (case fst std of None \<Rightarrow> '''' | Some out \<Rightarrow> out)
     @ (case snd std of
          None \<Rightarrow> ''''
        | Some err \<Rightarrow> if err = '''' then '''' else ''\<newline>\<newline>'' @ err)"

section \<open>Inputs for the examples\<close>

text \<open>
  A stand-in for the libraries, a context and two results structures, on which the
  theorems below are exercised.
\<close>

definition exampleLib :: "unit Lib" where
  "exampleLib =
     \<lparr>path_relative = (\<lambda>from to. to),
      path_basename = (\<lambda>p. p),
      path_dirname = (\<lambda>p. p),
      getCoverageSummary = (\<lambda>entries.
        \<lparr>statements = \<lparr>pct = JsNumber 100\<rparr>, branches = \<lparr>pct = JsNumber 100\<rparr>,
         functions = \<lparr>pct = JsNumber 100\<rparr>, lines = \<lparr>pct = JsNumber 100\<rparr>\<rparr>),
      toSummary = (\<lambda>fc.
        \<lparr>statements = \<lparr>pct = JsNumber 100\<rparr>, branches = \<lparr>pct = JsNumber 100\<rparr>,
         functions = \<lparr>pct = JsNumber 100\<rparr>, lines = \<lparr>pct = JsNumber 100\<rparr>\<rparr>),
      strip = (\<lambda>s. s),
      fracStr = (\<lambda>x. ''?''),
      rootPath = ''/work''\<rparr>"

definition exampleContext :: Context where
  "exampleContext =
     \<lparr>context_repo = \<lparr>owner = ''o'', repo = ''r''\<rparr>,
      context_sha = ''abc'',
      pull_request_number = Some 7,
      pull_request_head_sha = Some ''def''\<rparr>"

definition passedAssertion :: AssertionResult where
  "passedAssertion =
     \<lparr>AssertionResult.status = ''passed'', ancestorTitles = [''Suite''],
      AssertionResult.title = ''does Y'', location = None, failureMessages = Some []\<rparr>"

definition failedAssertion :: AssertionResult where
  "failedAssertion =
     \<lparr>AssertionResult.status = ''failed'', ancestorTitles = [''Suite''],
      AssertionResult.title = ''does X'', location = Some \<lparr>line = 12, column = 3\<rparr>,
      failureMessages = Some [''expected 1'', ''received 2'']\<rparr>"

definition failedResults :: "unit FormattedTestResults" where
  "failedResults =
     \<lparr>success = False, numPassedTests = 2, numPassedTestSuites = 1, numFailedTests = 1,
      numTotalTests = 3, numTotalTestSuites = 2,
      testResults =
        [\<lparr>TestResult.name = ''/work/foo.test'',
          assertionResults = [passedAssertion, failedAssertion]\<rparr>,
         \<lparr>TestResult.name = ''/srv/work/bar.test'',
          assertionResults = [failedAssertion\<lparr>location := None, failureMessages := None\<rparr>]\<rparr>],
      coverageMap = None\<rparr>"

definition passedResults :: "unit FormattedTestResults" where
  "passedResults =
     \<lparr>success = True, numPassedTests = 12, numPassedTestSuites = 2, numFailedTests = 0,
      numTotalTests = 12, numTotalTestSuites = 2,
      testResults =
        [\<lparr>TestResult.name = ''/work/foo.test'',
          assertionResults = [passedAssertion, failedAssertion]\<rparr>],
      coverageMap = Some []\<rparr>"

definition exampleFile :: "string \<Rightarrow> string \<Rightarrow> File" where
  "exampleFile dir base =
     \<lparr>relative = dir @ ''/'' @ base, fileName = base, path = dir,
      coverage = toSummary exampleLib ()\<rparr>"

definition rejectingPublish :: "CommentPayload \<Rightarrow> RunState \<Rightarrow> js_error + RunState" where
  "rejectingPublish p st = Inl (TypeError ''rejected'')"

definition undefinedSummary :: CoverageSummary where
  "undefinedSummary =
     \<lparr>statements = \<lparr>pct = JsUndefined\<rparr>, branches = \<lparr>pct = JsUndefined\<rparr>,
      functions = \<lparr>pct = JsUndefined\<rparr>, lines = \<lparr>pct = JsUndefined\<rparr>\<rparr>"

section \<open>Unfolding rules for the examples\<close>

lemmas render_defs = toHTMLTableRow_def rowTag_def array_map_def dummyRow_def openingTag_def
  closingTag_def wrapperCost_def runningCount_def tdCell_def thCell_def toHTMLTable_def
  emittedRows_def

lemmas object_defs = objectEntries_def isArrayIndex_def isDigit_def decimalValue_def
  groupByPath_def hasProperty_def objectPrototypeKeys_def

lemmas example_defs = exampleLib_def exampleContext_def passedAssertion_def failedAssertion_def
  failedResults_def passedResults_def exampleFile_def

section \<open>Properties of the row renderer\<close>

lemma runningCount_Nil: "runningCount f c [] = c"
  by (simp add: runningCount_def)

lemma runningCount_Cons:
  "runningCount f c (r # rs) = runningCount f (c + int (length (rowTag f r))) rs"
  by (simp add: runningCount_def)

lemma runningCount_mono: "c \<le> runningCount f c rs"
proof -
  have "0 \<le> (\<Sum>r\<leftarrow>rs. int (length (rowTag f r)))"
    by (rule sum_list_nonneg) auto
  then show ?thesis by (simp add: runningCount_def)
qed

lemma runningCount_length:
  "runningCount f c rs = c + int (length (concat (map (rowTag f) rs)))"
  by (induction rs arbitrary: c) (simp_all add: runningCount_Nil runningCount_Cons)

lemma fits_mono: "fits c cl \<Longrightarrow> c' \<le> c \<Longrightarrow> fits c' cl"
  by (cases cl) auto

text \<open>
  Once the running count is above the limit and the placeholder has been written, every
  further row contributes the empty string: the count only grows.
\<close>

lemma rowsLoop_after_overflow:
  "\<not> fits c cl \<Longrightarrow> concat (rowsLoop rows f cl rs c True) = []"
proof (induction rs arbitrary: c)
  case Nil
  show ?case by simp
next
  case (Cons r rs)
  let ?c' = "c + int (length (rowTag f r))"
  from Cons.prems have over: "\<not> fits ?c' cl"
    using fits_mono [of ?c' cl c] by auto
  from Cons.IH [OF over] over show ?case by (simp add: Let_def)
qed

lemma keptCount_le: "keptCount f cl c rs \<le> length rs"
  by (induction rs arbitrary: c) auto

lemma rowsLoop_shape:
  "concat (rowsLoop rows f cl rs c False) =
     concat (map (rowTag f) (take (keptCount f cl c rs) rs))
     @ (if keptCount f cl c rs < length rs then rowTag f (dummyRow rows) else [])"
proof (induction rs arbitrary: c)
  case Nil
  show ?case by simp
next
  case (Cons r rs)
  let ?c' = "c + int (length (rowTag f r))"
  show ?case
  proof (cases "fits ?c' cl")
    case True
    with Cons.IH [of ?c'] show ?thesis by (simp add: Let_def)
  next
    case False
    with rowsLoop_after_overflow [OF False, of rows f rs] show ?thesis
      by (simp add: Let_def)
  qed
qed

lemma toHTMLTableRow_emitted:
  "toHTMLTableRow rows f w cl =
     openingTag w @ concat (map (rowTag f) (emittedRows f w cl rows)) @ closingTag w"
  by (simp add: toHTMLTableRow_def emittedRows_def rowsLoop_shape Let_def)

lemma toHTMLTableRow_length:
  "int (length (toHTMLTableRow rows f w cl)) =
     runningCount f (wrapperCost w) (take (keptCount f cl (wrapperCost w) rows) rows)
     + (if keptCount f cl (wrapperCost w) rows < length rows
        then int (length (rowTag f (dummyRow rows))) else 0)"
  by (simp add: toHTMLTableRow_emitted emittedRows_def Let_def runningCount_length wrapperCost_def)

lemma keptCount_all:
  "fits (runningCount f c rs) cl \<Longrightarrow> keptCount f cl c rs = length rs"
proof (induction rs arbitrary: c)
  case Nil
  show ?case by simp
next
  case (Cons r rs)
  let ?c' = "c + int (length (rowTag f r))"
  from Cons.prems have all: "fits (runningCount f ?c' rs) cl"
    by (simp add: runningCount_Cons)
  have "?c' \<le> runningCount f ?c' rs" by (rule runningCount_mono)
  with all have "fits ?c' cl" by (rule fits_mono)
  with Cons.IH [OF all] show ?case by simp
qed

lemma keptCount_first_overflow:
  "k < length rs \<Longrightarrow> k = 0 \<or> fits (runningCount f c (take k rs)) cl \<Longrightarrow>
   \<not> fits (runningCount f c (take (Suc k) rs)) cl \<Longrightarrow> keptCount f cl c rs = k"
proof (induction rs arbitrary: c k)
  case Nil
  then show ?case by simp
next
  case (Cons r rs)
  let ?c' = "c + int (length (rowTag f r))"
  show ?case
  proof (cases k)
    case 0
    with Cons.prems show ?thesis by (simp add: runningCount_def)
  next
    case (Suc j)
    with Cons.prems have a: "j < length rs"
      and b: "fits (runningCount f ?c' (take j rs)) cl"
      and c: "\<not> fits (runningCount f ?c' (take (Suc j) rs)) cl"
      by (simp_all add: runningCount_Cons)
    have "?c' \<le> runningCount f ?c' (take j rs)" by (rule runningCount_mono)
    with b have "fits ?c' cl" by (rule fits_mono)
    with Cons.IH [OF a _ c] b Suc show ?thesis by simp
  qed
qed

lemma keptCount_prefix_fits:
  "fits c cl \<Longrightarrow> fits (runningCount f c (take (keptCount f cl c rs) rs)) cl"
proof (induction rs arbitrary: c)
  case Nil
  then show ?case by (simp add: runningCount_Nil)
next
  case (Cons r rs)
  then show ?case by (simp add: runningCount_Cons runningCount_Nil)
qed

lemma keptCount_append:
  "keptCount f cl c (take (keptCount f cl c rs) rs @ ys) =
     keptCount f cl c rs + keptCount f cl (runningCount f c (take (keptCount f cl c rs) rs)) ys"
proof (induction rs arbitrary: c)
  case Nil
  show ?case by (simp add: runningCount_Nil)
next
  case (Cons r rs)
  then show ?case by (simp add: runningCount_Cons runningCount_Nil)
qed

lemma toHTMLTableRow_bound:
  assumes "wrapperCost w \<le> l"
  shows "int (length (toHTMLTableRow rows f w (Finite l)))
           \<le> l + int (length (rowTag f (dummyRow rows)))"
proof -
  from assms have "fits (wrapperCost w) (Finite l)" by simp
  then have "fits (runningCount f (wrapperCost w)
                 (take (keptCount f (Finite l) (wrapperCost w) rows) rows)) (Finite l)"
    by (rule keptCount_prefix_fits)
  moreover have "0 \<le> int (length (rowTag f (dummyRow rows)))" by simp
  ultimately show ?thesis
    unfolding toHTMLTableRow_length by (auto simp del: of_nat_0_le_iff)
qed

text \<open>
  C1. As stated the claim fails: the placeholder row is written after the budget is used
  up and is not charged against it. With limit 34, wrapper \<^verbatim>\<open>tbody\<close> (cost 15) and the
  rows \<^verbatim>\<open>[["a"], ["b"]]\<close>, the first row (19 characters) fits exactly, the second does
  not, and the output has 64 characters: more than 34, and not the 45 of the floor case.
\<close>

theorem toHTMLTableRow_budget_counterexample:
  "wrapperCost ''tbody'' \<le> 34
   \<and> \<not> (int (length (toHTMLTableRow [[''a''], [''b'']] tdCell ''tbody'' (Finite 34))) \<le> 34
        \<or> int (length (toHTMLTableRow [[''a''], [''b'']] tdCell ''tbody'' (Finite 34)))
            = wrapperCost ''tbody'' + int (length (rowTag tdCell (dummyRow [[''a''], [''b'']]))))"
  by (simp add: render_defs)

text \<open>
  C1, amended. For every limit \<open>l\<close> that is at least the wrapper cost and every row
  sequence, the output of the row renderer is at most \<open>l\<close> plus the length of the
  placeholder row; it is at most \<open>l\<close> when all rows fit; and when already the first row
  does not fit it is exactly the wrapper cost plus the length of the placeholder row.
  Accordingly a table rendered by \<^verbatim>\<open>toHTMLTable\<close> under a budget that admits the empty
  table exceeds the budget by at most the length of the placeholder row.
\<close>

theorem toHTMLTableRow_budget:
  assumes "wrapperCost w \<le> l"
  shows "int (length (toHTMLTableRow rows f w (Finite l)))
           \<le> l + int (length (rowTag f (dummyRow rows)))
       \<and> (fits (runningCount f (wrapperCost w) rows) (Finite l) \<longrightarrow>
            int (length (toHTMLTableRow rows f w (Finite l))) \<le> l)
       \<and> (rows \<noteq> [] \<and> \<not> fits (runningCount f (wrapperCost w) (take 1 rows)) (Finite l) \<longrightarrow>
            int (length (toHTMLTableRow rows f w (Finite l)))
              = wrapperCost w + int (length (rowTag f (dummyRow rows))))
       \<and> (int (length (toHTMLTable headers [] Infinity)) \<le> l' \<longrightarrow>
            int (length (toHTMLTable headers rows (Finite l')))
              \<le> l' + int (length (rowTag tdCell (dummyRow rows))))"
proof (intro conjI impI)
  show "int (length (toHTMLTableRow rows f w (Finite l)))
           \<le> l + int (length (rowTag f (dummyRow rows)))"
    using assms by (rule toHTMLTableRow_bound)
next
  assume "fits (runningCount f (wrapperCost w) rows) (Finite l)"
  then show "int (length (toHTMLTableRow rows f w (Finite l))) \<le> l"
    by (simp add: toHTMLTableRow_length keptCount_all)
next
  assume a: "rows \<noteq> [] \<and> \<not> fits (runningCount f (wrapperCost w) (take 1 rows)) (Finite l)"
  then obtain r rs where rows: "rows = r # rs" by (cases rows) auto
  with a have "keptCount f (Finite l) (wrapperCost w) rows = 0"
    by (simp add: runningCount_def)
  with rows show "int (length (toHTMLTableRow rows f w (Finite l)))
              = wrapperCost w + int (length (rowTag f (dummyRow rows)))"
    by (simp add: toHTMLTableRow_length runningCount_Nil)
next
  let ?ov = "int (length (''<table width='' @ [CHR 0x22] @ ''100%'' @ [CHR 0x22] @ ''>''))
      + int (length ''</table>'') + int (length (toHTMLTableRow [headers] thCell ''thead'' Infinity))"
  assume "int (length (toHTMLTable headers [] Infinity)) \<le> l'"
  then have "wrapperCost ''tbody'' \<le> l' - ?ov"
    by (simp add: toHTMLTable_def Let_def toHTMLTableRow_def wrapperCost_def openingTag_def
        closingTag_def)
  from toHTMLTableRow_bound [OF this, of rows tdCell]
  show "int (length (toHTMLTable headers rows (Finite l')))
              \<le> l' + int (length (rowTag tdCell (dummyRow rows)))"
    by (simp add: toHTMLTable_def Let_def)
qed

theorem toHTMLTableRow_budget_witness:
  "wrapperCost ''tbody'' \<le> 34
   \<and> int (length (toHTMLTableRow [[''a''], [''b'']] tdCell ''tbody'' (Finite 34))) = 64
   \<and> int (length (rowTag tdCell (dummyRow [[''a''], [''b'']]))) = 30
   \<and> fits (runningCount tdCell (wrapperCost ''tbody'') [[''a'']]) (Finite 34)
   \<and> int (length (toHTMLTableRow [[''a'']] tdCell ''tbody'' (Finite 34))) \<le> 34
   \<and> \<not> fits (runningCount tdCell (wrapperCost ''tbody'') (take 1 [[''abc''], [''b'']])) (Finite 34)
   \<and> int (length (toHTMLTableRow [[''abc''], [''b'']] tdCell ''tbody'' (Finite 34))) = 45
   \<and> int (length (toHTMLTable [''File''] [] Infinity)) \<le> 100
   \<and> int (length (toHTMLTable [''File''] [[''a''], [''b'']] (Finite 100))) \<le> 130"
  using toHTMLTableRow_budget [of "''tbody''" 34 "[[''a''], [''b'']]" tdCell "[''File'']" 100]
    toHTMLTableRow_budget [of "''tbody''" 34 "[[''a'']]" tdCell "[''File'']" 100]
    toHTMLTableRow_budget [of "''tbody''" 34 "[[''abc''], [''b'']]" tdCell "[''File'']" 100]
  by (simp add: render_defs)

subsection \<open>The text of a row\<close>

text \<open>
  The callback of \<^verbatim>\<open>row.map(formatCellCB)\<close> sees each cell with its column index, and the
  row is the concatenation of the rendered cells between \<^verbatim>\<open><tr>\<close> and \<^verbatim>\<open></tr>\<close>.
\<close>

lemma mapFrom_enumerate: "mapFrom i f xs = map (\<lambda>(j, x). f x j) (enumerate i xs)"
  by (induction xs arbitrary: i) simp_all

text \<open>
  C2. Under a finite limit, let row \<open>k\<close> be the first row whose addition pushes the running
  character count, started at the wrapper cost, above the limit. Then the output is the
  wrapper around the \<open>k\<close> rows before it, verbatim, followed by exactly one placeholder row
  and nothing else: no later input row and no second placeholder. The placeholder's first
  cell is the literal \<^verbatim>\<open>truncated...\<close>, its other cells are empty, and it has as many
  cells as the first input row (for a first input row that has cells; the placeholder never
  has fewer than the one cell of its label). For \<open>k = 0\<close> the output holds the placeholder
  only.
\<close>

theorem toHTMLTableRow_placeholder:
  assumes "k < length rows"
    and "\<forall>j<k. fits (runningCount f (wrapperCost w) (take (Suc j) rows)) (Finite l)"
    and "\<not> fits (runningCount f (wrapperCost w) (take (Suc k) rows)) (Finite l)"
  shows "toHTMLTableRow rows f w (Finite l) =
           ''<'' @ w @ ''>''
           @ concat (map (\<lambda>row. ''<tr>''
                            @ concat (map (\<lambda>(i, cell). f cell i) (enumerate 0 row))
                            @ ''</tr>'')
                      (take k rows))
           @ ''<tr>''
           @ concat (map (\<lambda>(i, cell). f cell i)
                      (enumerate 0 (''truncated...'' # replicate (length (hd rows) - 1) '''')))
           @ ''</tr>''
           @ ''</'' @ w @ ''>''
       \<and> length (''truncated...'' # replicate (length (hd rows) - 1) '''')
           = max 1 (length (hd rows))
       \<and> (hd rows \<noteq> [] \<longrightarrow>
            length (''truncated...'' # replicate (length (hd rows) - 1) '''')
              = length (hd rows))"
proof -
  have rt: "rowTag f = (\<lambda>row. ''<tr>''
      @ concat (map (\<lambda>(i, cell). f cell i) (enumerate 0 row)) @ ''</tr>'')"
    by (rule ext) (simp add: rowTag_def array_map_def mapFrom_enumerate)
  have "k = 0 \<or> fits (runningCount f (wrapperCost w) (take k rows)) (Finite l)"
  proof (cases k)
    case 0
    then show ?thesis by simp
  next
    case (Suc j)
    with assms(2) show ?thesis by blast
  qed
  with assms have k: "keptCount f (Finite l) (wrapperCost w) rows = k"
    by (intro keptCount_first_overflow)
  from assms(1) obtain r rs where "rows = r # rs" by (cases rows) auto
  then have "dummyRow rows = ''truncated...'' # replicate (length (hd rows) - 1) ''''"
    by (simp add: dummyRow_def nat_diff_distrib')
  with k assms(1) have "toHTMLTableRow rows f w (Finite l) =
           openingTag w @ concat (map (rowTag f) (take k rows))
           @ rowTag f (''truncated...'' # replicate (length (hd rows) - 1) '''')
           @ closingTag w"
    by (simp add: toHTMLTableRow_emitted emittedRows_def Let_def)
  then have out: "toHTMLTableRow rows f w (Finite l) =
           ''<'' @ w @ ''>''
           @ concat (map (\<lambda>row. ''<tr>''
                            @ concat (map (\<lambda>(i, cell). f cell i) (enumerate 0 row))
                            @ ''</tr>'')
                      (take k rows))
           @ ''<tr>''
           @ concat (map (\<lambda>(i, cell). f cell i)
                      (enumerate 0 (''truncated...'' # replicate (length (hd rows) - 1) '''')))
           @ ''</tr>''
           @ ''</'' @ w @ ''>''"
    unfolding rt by (simp add: openingTag_def closingTag_def)
  have cols: "length (''truncated...'' # replicate (length (hd rows) - 1) '''')
           = max 1 (length (hd rows))"
    by (cases "hd rows") simp_all
  have "length (''truncated...'' # replicate (length (hd rows) - 1) '''') = length (hd rows)"
    if "hd rows \<noteq> []"
    using that by (cases "hd rows") simp_all
  with out cols show ?thesis by blast
qed

theorem toHTMLTableRow_placeholder_witness:
  "(1::nat) < length [[''a'', ''x''], [''b'', ''y''], [''c'', ''z'']]
   \<and> fits (runningCount tdCell (wrapperCost ''tbody'')
                (take (Suc 0) [[''a'', ''x''], [''b'', ''y''], [''c'', ''z'']])) (Finite 80)
   \<and> \<not> fits (runningCount tdCell (wrapperCost ''tbody'')
                (take (Suc 1) [[''a'', ''x''], [''b'', ''y''], [''c'', ''z'']])) (Finite 80)
   \<and> hd [[''a'', ''x''], [''b'', ''y''], [''c'', ''z'']] \<noteq> []
   \<and> toHTMLTableRow [[''a'', ''x''], [''b'', ''y''], [''c'', ''z'']] tdCell ''tbody'' (Finite 80)
       = ''<tbody><tr><td>a</td><td nowrap='' @ [CHR 0x22] @ ''nowrap'' @ [CHR 0x22]
         @ '' align='' @ [CHR 0x22] @ ''right'' @ [CHR 0x22] @ ''>x</td></tr>''
         @ ''<tr><td>truncated...</td><td nowrap='' @ [CHR 0x22] @ ''nowrap'' @ [CHR 0x22]
         @ '' align='' @ [CHR 0x22] @ ''right'' @ [CHR 0x22] @ ''></td></tr></tbody>''
   \<and> length (''truncated...''
        # replicate (length (hd [[''a'', ''x''], [''b'', ''y''], [''c'', ''z'']]) - 1) '''')
       = length (hd [[''a'', ''x''], [''b'', ''y''], [''c'', ''z'']])
   \<and> \<not> fits (runningCount thCell (wrapperCost ''thead'')
                (take (Suc 0) [[''a'', ''x''], [''b'', ''y'']])) (Finite 40)
   \<and> toHTMLTableRow [[''a'', ''x''], [''b'', ''y'']] thCell ''thead'' (Finite 40)
       = ''<thead><tr><th>truncated...</th><th></th></tr></thead>''"
proof -
  have h1: "(1::nat) < length [[''a'', ''x''], [''b'', ''y''], [''c'', ''z'']]" by simp
  have h2: "\<forall>j<1. fits (runningCount tdCell (wrapperCost ''tbody'')
                (take (Suc j) [[''a'', ''x''], [''b'', ''y''], [''c'', ''z'']])) (Finite 80)"
    by (simp add: render_defs)
  have h3: "\<not> fits (runningCount tdCell (wrapperCost ''tbody'')
                (take (Suc 1) [[''a'', ''x''], [''b'', ''y''], [''c'', ''z'']])) (Finite 80)"
    by (simp add: render_defs)
  have g1: "(0::nat) < length [[''a'', ''x''], [''b'', ''y'']]" by simp
  have g2: "\<forall>j<0. fits (runningCount thCell (wrapperCost ''thead'')
                (take (Suc j) [[''a'', ''x''], [''b'', ''y'']])) (Finite 40)"
    by simp
  have g3: "\<not> fits (runningCount thCell (wrapperCost ''thead'')
                (take (Suc 0) [[''a'', ''x''], [''b'', ''y'']])) (Finite 40)"
    by (simp add: render_defs)
  from toHTMLTableRow_placeholder [OF h1 h2 h3] toHTMLTableRow_placeholder [OF g1 g2 g3]
    h1 h2 h3 g3
  show ?thesis by (simp add: tdCell_def thCell_def enumerate_eq_zip)
qed

text \<open>
  C3. Whenever the cumulative rendered size of all rows, started at the wrapper cost, stays
  within the limit (that is, the wrapper around all rows is no longer than the limit), and
  in particular whenever the limit is \<^verbatim>\<open>Infinity\<close>, the renderer returns the wrapper
  around every row, verbatim and in order, and nothing else: each row is \<^verbatim>\<open><tr>\<close>, its
  cells as the cell renderer renders them with their column index, and \<^verbatim>\<open></tr>\<close>; no
  placeholder row is emitted.
\<close>

theorem toHTMLTableRow_all_rows:
  assumes "cl = Infinity
           \<or> fits (int (length (''<'' @ w @ ''>''
                  @ concat (map (\<lambda>row. ''<tr>''
                                   @ concat (map (\<lambda>(i, cell). f cell i) (enumerate 0 row))
                                   @ ''</tr>'')
                             rows)
                  @ ''</'' @ w @ ''>''))) cl"
  shows "toHTMLTableRow rows f w cl =
           ''<'' @ w @ ''>''
           @ concat (map (\<lambda>row. ''<tr>''
                            @ concat (map (\<lambda>(i, cell). f cell i) (enumerate 0 row))
                            @ ''</tr>'')
                      rows)
           @ ''</'' @ w @ ''>''"
proof -
  have rt: "rowTag f = (\<lambda>row. ''<tr>''
      @ concat (map (\<lambda>(i, cell). f cell i) (enumerate 0 row)) @ ''</tr>'')"
    by (rule ext) (simp add: rowTag_def array_map_def mapFrom_enumerate)
  have "runningCount f (wrapperCost w) rows =
     int (length (''<'' @ w @ ''>''
       @ concat (map (\<lambda>row. ''<tr>'' @ concat (map (\<lambda>(i, cell). f cell i) (enumerate 0 row))
                          @ ''</tr>'') rows)
       @ ''</'' @ w @ ''>''))"
    unfolding runningCount_length rt
    by (simp add: wrapperCost_def openingTag_def closingTag_def)
  with assms have "fits (runningCount f (wrapperCost w) rows) cl" by auto
  then have "toHTMLTableRow rows f w cl =
      openingTag w @ concat (map (rowTag f) rows) @ closingTag w"
    by (simp add: toHTMLTableRow_emitted emittedRows_def Let_def keptCount_all)
  then show ?thesis
    unfolding rt by (simp add: openingTag_def closingTag_def)
qed

theorem toHTMLTableRow_all_rows_witness:
  "fits (int (length (''<tbody><tr><td>a</td><td nowrap='' @ [CHR 0x22] @ ''nowrap''
         @ [CHR 0x22] @ '' align='' @ [CHR 0x22] @ ''right'' @ [CHR 0x22] @ ''>x</td></tr>''
         @ ''<tr><td>b</td><td nowrap='' @ [CHR 0x22] @ ''nowrap'' @ [CHR 0x22]
         @ '' align='' @ [CHR 0x22] @ ''right'' @ [CHR 0x22] @ ''>y</td></tr></tbody>'')))
      (Finite 133)
   \<and> toHTMLTableRow [[''a'', ''x''], [''b'', ''y'']] tdCell ''tbody'' (Finite 133)
       = ''<tbody><tr><td>a</td><td nowrap='' @ [CHR 0x22] @ ''nowrap'' @ [CHR 0x22]
         @ '' align='' @ [CHR 0x22] @ ''right'' @ [CHR 0x22] @ ''>x</td></tr>''
         @ ''<tr><td>b</td><td nowrap='' @ [CHR 0x22] @ ''nowrap'' @ [CHR 0x22]
         @ '' align='' @ [CHR 0x22] @ ''right'' @ [CHR 0x22] @ ''>y</td></tr></tbody>''
   \<and> toHTMLTableRow [[''% Stmts'', ''% Branch''], [''a'', ''b'']] thCell ''thead'' Infinity
       = ''<thead><tr><th>% Stmts</th><th>% Branch</th></tr><tr><th>a</th><th>b</th></tr></thead>''"
proof -
  have h: "fits (int (length (''<'' @ ''tbody'' @ ''>''
                  @ concat (map (\<lambda>row. ''<tr>''
                                   @ concat (map (\<lambda>(i, cell). tdCell cell i) (enumerate 0 row))
                                   @ ''</tr>'')
                             [[''a'', ''x''], [''b'', ''y'']])
                  @ ''</'' @ ''tbody'' @ ''>''))) (Finite 133)"
    by (simp add: tdCell_def enumerate_eq_zip)
  have e: "toHTMLTableRow [[''a'', ''x''], [''b'', ''y'']] tdCell ''tbody'' (Finite 133)
       = ''<tbody><tr><td>a</td><td nowrap='' @ [CHR 0x22] @ ''nowrap'' @ [CHR 0x22]
         @ '' align='' @ [CHR 0x22] @ ''right'' @ [CHR 0x22] @ ''>x</td></tr>''
         @ ''<tr><td>b</td><td nowrap='' @ [CHR 0x22] @ ''nowrap'' @ [CHR 0x22]
         @ '' align='' @ [CHR 0x22] @ ''right'' @ [CHR 0x22] @ ''>y</td></tr></tbody>''"
    by (simp add: render_defs)
  from toHTMLTableRow_all_rows [of "Finite 133" "''tbody''" tdCell, OF disjI2, OF h]
    toHTMLTableRow_all_rows [of Infinity "''thead''" thCell
      "[[''% Stmts'', ''% Branch''], [''a'', ''b'']]"]
    e
  show ?thesis by (simp add: tdCell_def thCell_def enumerate_eq_zip)
qed

subsection \<open>Re-rendering the emitted rows\<close>

lemma dummyRow_dummyRow: "dummyRow (dummyRow rows # rs) = dummyRow rows"
  by (simp add: dummyRow_def)

lemma dummyRow_emitted:
  "keptCount f cl (wrapperCost w) rows < length rows \<Longrightarrow>
   dummyRow (emittedRows f w cl rows) = dummyRow rows"
proof (cases rows)
  case Nil
  then show ?thesis by (simp add: emittedRows_def)
next
  case (Cons r rs)
  assume "keptCount f cl (wrapperCost w) rows < length rows"
  show ?thesis
  proof (cases "keptCount f cl (wrapperCost w) rows")
    case 0
    with Cons show ?thesis
      by (simp add: emittedRows_def Let_def dummyRow_dummyRow)
  next
    case (Suc j)
    with Cons show ?thesis
      by (simp add: emittedRows_def Let_def dummyRow_def)
  qed
qed

lemma emittedRows_idem:
  "emittedRows f w cl (emittedRows f w cl rows) = emittedRows f w cl rows"
proof (cases "keptCount f cl (wrapperCost w) rows < length rows")
  case False
  with keptCount_le [of f cl "wrapperCost w" rows]
  have "emittedRows f w cl rows = rows" by (simp add: emittedRows_def Let_def)
  then show ?thesis by simp
next
  case True
  let ?k = "keptCount f cl (wrapperCost w) rows"
  let ?d = "dummyRow rows"
  let ?E = "take ?k rows @ [?d]"
  have E: "emittedRows f w cl rows = ?E" using True by (simp add: emittedRows_def Let_def)
  have d: "dummyRow ?E = ?d" using dummyRow_emitted [OF True] E by simp
  have len: "length ?E = Suc ?k" using True by simp
  have kc: "keptCount f cl (wrapperCost w) ?E =
     ?k + keptCount f cl (runningCount f (wrapperCost w) (take ?k rows)) [?d]"
    by (rule keptCount_append)
  show ?thesis
  proof (cases "keptCount f cl (runningCount f (wrapperCost w) (take ?k rows)) [?d] = 0")
    case z: True
    have "emittedRows f w cl ?E = take ?k ?E @ [dummyRow ?E]"
      unfolding emittedRows_def Let_def kc z using len by simp
    also have "\<dots> = ?E" using d True by simp
    finally show ?thesis using E by simp
  next
    case nz: False
    then have one: "keptCount f cl (runningCount f (wrapperCost w) (take ?k rows)) [?d] = 1"
      by (simp split: if_splits)
    have "emittedRows f w cl ?E = ?E"
      unfolding emittedRows_def Let_def kc one using len by simp
    then show ?thesis using E by simp
  qed
qed

text \<open>
  C4. Truncation is idempotent. The output of the renderer is the wrapper around the rows
  it emitted (the kept data rows, followed by the single placeholder row when a row did not
  fit), and rendering that emitted row sequence again with the same cell renderer, wrapper
  and limit gives exactly the same string: no second placeholder appears.
\<close>

theorem toHTMLTableRow_idempotent:
  "toHTMLTableRow rows f w cl =
     openingTag w @ concat (map (rowTag f) (emittedRows f w cl rows)) @ closingTag w
   \<and> toHTMLTableRow (emittedRows f w cl rows) f w cl = toHTMLTableRow rows f w cl"
  by (simp add: toHTMLTableRow_emitted [of "emittedRows f w cl rows"] emittedRows_idem
      toHTMLTableRow_emitted [of rows])

theorem toHTMLTableRow_idempotent_witness:
  "emittedRows tdCell ''tbody'' (Finite 80) [[''a'', ''x''], [''b'', ''y''], [''c'', ''z'']]
     = [[''a'', ''x''], [''truncated...'', '''']]
   \<and> toHTMLTableRow [[''a'', ''x''], [''truncated...'', '''']] tdCell ''tbody'' (Finite 80)
     = toHTMLTableRow [[''a'', ''x''], [''b'', ''y''], [''c'', ''z'']] tdCell ''tbody'' (Finite 80)"
proof -
  have e: "emittedRows tdCell ''tbody'' (Finite 80)
             [[''a'', ''x''], [''b'', ''y''], [''c'', ''z'']]
           = [[''a'', ''x''], [''truncated...'', '''']]"
    by (simp add: render_defs)
  from toHTMLTableRow_idempotent [of "[[''a'', ''x''], [''b'', ''y''], [''c'', ''z'']]"
      tdCell "''tbody''" "Finite 80"] e
  show ?thesis by simp
qed

section \<open>Properties of the coverage table\<close>

text \<open>
  C10. For a coverage metric whose percentage is \<^verbatim>\<open>undefined\<close>, all three threshold
  comparisons of the band formatter are false and it returns the red-band string
  \<^verbatim>\<open>undefined :red_circle:\<close>. The percentage is not coerced to 0 (the result differs from
  that for 0) and nothing is thrown; \<^verbatim>\<open>summaryToRow\<close> puts that string in the cell of
  each metric whose percentage is undefined.
\<close>

theorem formatIfPoor_undefined:
  "\<not> js_greater JsUndefined 80 \<and> \<not> js_greater JsUndefined 65 \<and> \<not> js_greater JsUndefined 50
   \<and> formatIfPoor fs JsUndefined = ''undefined :red_circle:''
   \<and> formatIfPoor fs JsUndefined \<noteq> formatIfPoor fs (JsNumber 0)
   \<and> (pct (statements f) = JsUndefined \<longrightarrow> summaryToRow fs f ! 0 = ''undefined :red_circle:'')
   \<and> (pct (branches f) = JsUndefined \<longrightarrow> summaryToRow fs f ! 1 = ''undefined :red_circle:'')
   \<and> (pct (functions f) = JsUndefined \<longrightarrow> summaryToRow fs f ! 2 = ''undefined :red_circle:'')
   \<and> (pct (lines f) = JsUndefined \<longrightarrow> summaryToRow fs f ! 3 = ''undefined :red_circle:'')"
  by (simp add: formatIfPoor_def summaryToRow_def numberToString_def showInt_def showNat.simps)

theorem formatIfPoor_undefined_witness:
  "pct (statements undefinedSummary) = JsUndefined
   \<and> pct (branches undefinedSummary) = JsUndefined
   \<and> pct (functions undefinedSummary) = JsUndefined
   \<and> pct (lines undefinedSummary) = JsUndefined
   \<and> summaryToRow (fracStr exampleLib) undefinedSummary ! 0 = ''undefined :red_circle:''
   \<and> summaryToRow (fracStr exampleLib) undefinedSummary ! 1 = ''undefined :red_circle:''
   \<and> summaryToRow (fracStr exampleLib) undefinedSummary ! 2 = ''undefined :red_circle:''
   \<and> summaryToRow (fracStr exampleLib) undefinedSummary ! 3 = ''undefined :red_circle:''"
  using formatIfPoor_undefined [of "fracStr exampleLib" undefinedSummary]
  by (simp add: undefinedSummary_def)

subsection \<open>Grouping by directory\<close>

lemma map_fst_insort_key:
  "map fst (insort_key (\<lambda>p. g (fst p)) x xs) = insort_key g (fst x) (map fst xs)"
  by (induction xs) auto

lemma map_fst_sort_key:
  "map fst (sort_key (\<lambda>p. g (fst p)) xs) = sort_key g (map fst xs)"
  by (induction xs) (simp_all add: map_fst_insort_key)

lemma map_fst_objectEntries:
  "map fst (objectEntries obj) =
     sort_key decimalValue (filter isArrayIndex (map fst obj))
     @ filter (\<lambda>d. \<not> isArrayIndex d) (map fst obj)"
  by (simp add: objectEntries_def map_fst_sort_key filter_map comp_def)

lemma set_objectEntries: "set (objectEntries obj) = set obj"
  by (auto simp add: objectEntries_def)

lemma map_of_push:
  "map_of (map (\<lambda>(k, fs). if k = a then (k, fs @ [x]) else (k, fs)) xs) d =
     (if d = a then map_option (\<lambda>fs. fs @ [x]) (map_of xs d) else map_of xs d)"
  by (induction xs) auto

lemma groupByPath_Inr:
  assumes "groupByPath dirs f = Inr dirs'"
  shows "map fst dirs' =
           (if File.path f \<in> set (map fst dirs) then map fst dirs else map fst dirs @ [File.path f])"
    and "\<And>d. d \<in> set (map fst dirs') \<Longrightarrow>
           map_of dirs' d = Some (groupOf dirs d @ (if d = File.path f then [f] else []))"
proof -
  let ?p = "File.path f"
  define d1 where "d1 = (if \<not> hasProperty ?p dirs then dirs @ [(?p, [])] else dirs)"
  from assms have own: "?p \<in> set (map fst d1)"
    and eq: "dirs' = map (\<lambda>(k, fs). if k = ?p then (k, fs @ [f]) else (k, fs)) d1"
    by (auto simp add: groupByPath_def Let_def d1_def split: if_splits)
  have keys: "map fst dirs' = map fst d1"
    unfolding eq by (induction d1) (auto simp add: case_prod_beta)
  have k1: "map fst d1 = (if ?p \<in> set (map fst dirs) then map fst dirs else map fst dirs @ [?p])"
    using own by (auto simp add: hasProperty_def d1_def)
  show "map fst dirs' =
           (if File.path f \<in> set (map fst dirs) then map fst dirs else map fst dirs @ [File.path f])"
    using keys k1 by simp
  fix d assume d: "d \<in> set (map fst dirs')"
  from d keys k1 have din: "d \<in> set (map fst dirs) \<or> d = ?p" by (auto split: if_splits)
  have m: "map_of dirs' d =
      (if d = ?p then map_option (\<lambda>fs. fs @ [f]) (map_of d1 d) else map_of d1 d)"
    unfolding eq by (rule map_of_push)
  show "map_of dirs' d = Some (groupOf dirs d @ (if d = File.path f then [f] else []))"
  proof (cases "d \<in> set (map fst dirs)")
    case True
    then obtain g where g: "map_of dirs d = Some g"
      by (metis map_of_eq_None_iff not_Some_eq set_map)
    then have "map_of d1 d = Some g" by (simp add: d1_def map_add_def)
    with g m show ?thesis by (auto simp add: groupOf_def)
  next
    case False
    with din have dp: "d = ?p" by simp
    from False have none: "map_of dirs d = None" by (simp add: map_of_eq_None_iff)
    from False dp own have "\<not> hasProperty ?p dirs" by (auto simp add: d1_def split: if_splits)
    with none dp have "map_of d1 d = Some []" by (simp add: d1_def map_add_def)
    with none dp m show ?thesis by (auto simp add: groupOf_def)
  qed
qed

lemma groupByPath_succeeds:
  "File.path f \<notin> set objectPrototypeKeys \<Longrightarrow> \<exists>dirs'. groupByPath dirs f = Inr dirs'"
  by (auto simp add: groupByPath_def Let_def hasProperty_def)

lemma reduce_groupByPath:
  assumes "\<forall>f\<in>set fs. File.path f \<notin> set objectPrototypeKeys"
  shows "\<exists>dirs. reduce groupByPath acc fs = Inr dirs
           \<and> map fst dirs =
               map fst acc @ filter (\<lambda>d. d \<notin> set (map fst acc)) (firstSeen (map File.path fs))
           \<and> (\<forall>d\<in>set (map fst dirs).
                 map_of dirs d = Some (groupOf acc d @ filter (\<lambda>f. File.path f = d) fs))"
  using assms
proof (induction fs arbitrary: acc)
  case Nil
  show ?case
  proof (intro exI conjI ballI)
    show "reduce groupByPath acc [] = Inr acc" by simp
    show "map fst acc = map fst acc @ filter (\<lambda>d. d \<notin> set (map fst acc)) (firstSeen (map File.path []))"
      by simp
    fix d assume "d \<in> set (map fst acc)"
    then obtain g where "map_of acc d = Some g"
      by (metis map_of_eq_None_iff not_Some_eq set_map)
    then show "map_of acc d = Some (groupOf acc d @ filter (\<lambda>f. File.path f = d) [])"
      by (simp add: groupOf_def)
  qed
next
  case (Cons f fs)
  let ?p = "File.path f"
  from Cons.prems obtain acc' where step: "groupByPath acc f = Inr acc'"
    using groupByPath_succeeds [of f acc] by auto
  note k = groupByPath_Inr(1) [OF step] and g = groupByPath_Inr(2) [OF step]
  from Cons.prems have rest: "\<forall>f\<in>set fs. File.path f \<notin> set objectPrototypeKeys" by simp
  from Cons.IH [OF rest, of acc'] obtain dirs where
    r: "reduce groupByPath acc' fs = Inr dirs"
    and ks: "map fst dirs =
        map fst acc' @ filter (\<lambda>d. d \<notin> set (map fst acc')) (firstSeen (map File.path fs))"
    and gs: "\<forall>d\<in>set (map fst dirs).
        map_of dirs d = Some (groupOf acc' d @ filter (\<lambda>f. File.path f = d) fs)"
    by blast
  show ?case
  proof (intro exI conjI ballI)
    show "reduce groupByPath acc (f # fs) = Inr dirs" using step r by simp
    show "map fst dirs = map fst acc
        @ filter (\<lambda>d. d \<notin> set (map fst acc)) (firstSeen (map File.path (f # fs)))"
    proof (cases "?p \<in> set (map fst acc)")
      case True
      have "filter (\<lambda>d. d \<notin> set (map fst acc)) (filter (\<lambda>y. y \<noteq> ?p) (firstSeen (map File.path fs)))
          = filter (\<lambda>d. d \<notin> set (map fst acc)) (firstSeen (map File.path fs))"
        unfolding filter_filter using True by (intro filter_cong) auto
      with True ks k show ?thesis by simp
    next
      case False
      have "filter (\<lambda>d. d \<notin> set (map fst acc)) (filter (\<lambda>y. y \<noteq> ?p) (firstSeen (map File.path fs)))
          = filter (\<lambda>d. d \<notin> set (map fst acc @ [?p])) (firstSeen (map File.path fs))"
        unfolding filter_filter by (intro filter_cong) auto
      with False ks k show ?thesis by simp
    qed
    fix d assume d: "d \<in> set (map fst dirs)"
    show "map_of dirs d = Some (groupOf acc d @ filter (\<lambda>f. File.path f = d) (f # fs))"
    proof (cases "d \<in> set (map fst acc')")
      case True
      from g [OF True] have "groupOf acc' d = groupOf acc d @ (if d = ?p then [f] else [])"
        by (simp add: groupOf_def)
      with gs d show ?thesis by auto
    next
      case False
      then have "map_of acc' d = None" by (simp add: map_of_eq_None_iff)
      moreover from False k have "d \<noteq> ?p" "d \<notin> set (map fst acc)" by (auto split: if_splits)
      then have "map_of acc d = None" "d \<noteq> ?p" by (simp_all add: map_of_eq_None_iff)
      ultimately have "groupOf acc' d = groupOf acc d" "d \<noteq> ?p" by (simp_all add: groupOf_def)
      with gs d show ?thesis by auto
    qed
  qed
qed

lemma distinct_firstSeen: "distinct (firstSeen xs)"
  by (induction xs) auto

lemma set_firstSeen: "set (firstSeen xs) = set xs"
  by (induction xs) auto

lemma reduce_groupByPath_empty:
  assumes "\<forall>f\<in>set fs. File.path f \<notin> set objectPrototypeKeys"
  shows "\<exists>dirs. reduce groupByPath [] fs = Inr dirs
           \<and> map fst dirs = firstSeen (map File.path fs)
           \<and> (\<forall>d\<in>set (map fst dirs).
                 map_of dirs d = Some (filter (\<lambda>f. File.path f = d) fs))"
  using reduce_groupByPath [OF assms, of "[]"] by (simp add: groupOf_def)

text \<open>
  C9. As stated the claim fails: \<^verbatim>\<open>Object.entries\<close> enumerates a directory whose name is
  an array index before every other directory. With a file in \<^verbatim>\<open>src\<close> followed by a
  file in \<^verbatim>\<open>2020\<close>, the group of \<^verbatim>\<open>2020\<close> comes first although \<^verbatim>\<open>src\<close> was seen
  first.
\<close>

theorem groupByPath_order_counterexample:
  "reduce groupByPath [] [exampleFile ''src'' ''a.ts'', exampleFile ''2020'' ''b.ts'']
     = Inr [(''src'', [exampleFile ''src'' ''a.ts'']), (''2020'', [exampleFile ''2020'' ''b.ts''])]
   \<and> map fst (objectEntries
        [(''src'', [exampleFile ''src'' ''a.ts'']), (''2020'', [exampleFile ''2020'' ''b.ts''])])
       = [''2020'', ''src'']
   \<and> firstSeen (map File.path [exampleFile ''src'' ''a.ts'', exampleFile ''2020'' ''b.ts''])
       = [''src'', ''2020'']
   \<and> map fst (objectEntries
        [(''src'', [exampleFile ''src'' ''a.ts'']), (''2020'', [exampleFile ''2020'' ''b.ts''])])
       \<noteq> firstSeen (map File.path [exampleFile ''src'' ''a.ts'', exampleFile ''2020'' ''b.ts''])"
  by (simp add: object_defs exampleFile_def)

text \<open>
  C9, amended. When no directory has the name of a member of \<^verbatim>\<open>Object.prototype\<close>,
  grouping succeeds, the directories are stored in first-seen order, and within each
  directory group the files keep their order in the coverage map. The groups are
  enumerated with the directories whose names are array indices first, in ascending numeric
  order, followed by all other directories in first-seen order; so when no directory name
  is an array index the groups appear in first-seen order.
\<close>

theorem groupByPath_order:
  assumes "\<forall>f\<in>set fs. File.path f \<notin> set objectPrototypeKeys"
  shows "\<exists>dirs. reduce groupByPath [] fs = Inr dirs
     \<and> map fst dirs = firstSeen (map File.path fs)
     \<and> map fst (objectEntries dirs) =
         sort_key decimalValue (filter isArrayIndex (firstSeen (map File.path fs)))
         @ filter (\<lambda>d. \<not> isArrayIndex d) (firstSeen (map File.path fs))
     \<and> ((\<forall>f\<in>set fs. \<not> isArrayIndex (File.path f)) \<longrightarrow>
          map fst (objectEntries dirs) = firstSeen (map File.path fs))
     \<and> (\<forall>(d, g)\<in>set (objectEntries dirs). g = filter (\<lambda>f. File.path f = d) fs)"
proof -
  from reduce_groupByPath_empty [OF assms] obtain dirs where
    r: "reduce groupByPath [] fs = Inr dirs"
    and ks: "map fst dirs = firstSeen (map File.path fs)"
    and gs: "\<forall>d\<in>set (map fst dirs). map_of dirs d = Some (filter (\<lambda>f. File.path f = d) fs)"
    by blast
  have dist: "distinct (map fst dirs)" unfolding ks by (rule distinct_firstSeen)
  have e: "map fst (objectEntries dirs) =
         sort_key decimalValue (filter isArrayIndex (firstSeen (map File.path fs)))
         @ filter (\<lambda>d. \<not> isArrayIndex d) (firstSeen (map File.path fs))"
    by (simp add: map_fst_objectEntries ks)
  have n: "map fst (objectEntries dirs) = firstSeen (map File.path fs)"
    if "\<forall>f\<in>set fs. \<not> isArrayIndex (File.path f)"
  proof -
    from that have "\<forall>d\<in>set (firstSeen (map File.path fs)). \<not> isArrayIndex d"
      by (auto simp add: set_firstSeen)
    then have "filter isArrayIndex (firstSeen (map File.path fs)) = []"
      and "filter (\<lambda>d. \<not> isArrayIndex d) (firstSeen (map File.path fs))
           = firstSeen (map File.path fs)"
      by (simp_all add: filter_empty_conv)
    with e show ?thesis by simp
  qed
  have g: "\<forall>(d, g)\<in>set (objectEntries dirs). g = filter (\<lambda>f. File.path f = d) fs"
  proof (clarify)
    fix d g assume "(d, g) \<in> set (objectEntries dirs)"
    then have m: "(d, g) \<in> set dirs" by (simp add: set_objectEntries)
    with dist have "map_of dirs d = Some g" by simp
    moreover from m have "d \<in> set (map fst dirs)" by force
    ultimately show "g = filter (\<lambda>f. File.path f = d) fs" using gs by auto
  qed
  from r ks e n g show ?thesis by blast
qed

theorem groupByPath_order_witness:
  "reduce groupByPath [] [exampleFile ''src'' ''a.ts'', exampleFile ''lib'' ''b.ts'',
       exampleFile ''src'' ''c.ts'']
     = Inr [(''src'', [exampleFile ''src'' ''a.ts'', exampleFile ''src'' ''c.ts'']),
            (''lib'', [exampleFile ''lib'' ''b.ts''])]
   \<and> objectEntries [(''src'', [exampleFile ''src'' ''a.ts'', exampleFile ''src'' ''c.ts'']),
            (''lib'', [exampleFile ''lib'' ''b.ts''])]
     = [(''src'', [exampleFile ''src'' ''a.ts'', exampleFile ''src'' ''c.ts'']),
            (''lib'', [exampleFile ''lib'' ''b.ts''])]
   \<and> reduce groupByPath [] [exampleFile ''src'' ''a.ts'', exampleFile ''2020'' ''b.ts'',
       exampleFile ''7'' ''c.ts'']
     = Inr [(''src'', [exampleFile ''src'' ''a.ts'']), (''2020'', [exampleFile ''2020'' ''b.ts'']),
            (''7'', [exampleFile ''7'' ''c.ts''])]
   \<and> map fst (objectEntries
         [(''src'', [exampleFile ''src'' ''a.ts'']), (''2020'', [exampleFile ''2020'' ''b.ts'']),
          (''7'', [exampleFile ''7'' ''c.ts''])])
     = [''7'', ''2020'', ''src'']"
proof -
  let ?fs = "[exampleFile ''src'' ''a.ts'', exampleFile ''lib'' ''b.ts'',
       exampleFile ''src'' ''c.ts'']"
  have h: "\<forall>f\<in>set ?fs. File.path f \<notin> set objectPrototypeKeys"
    by (simp add: exampleFile_def objectPrototypeKeys_def)
  have i: "\<forall>f\<in>set ?fs. \<not> isArrayIndex (File.path f)"
    by (simp add: exampleFile_def isArrayIndex_def isDigit_def)
  from groupByPath_order [OF h] i obtain dirs where
    r: "reduce groupByPath [] ?fs = Inr dirs"
    and k: "map fst (objectEntries dirs) = firstSeen (map File.path ?fs)"
    and g: "\<forall>(d, g)\<in>set (objectEntries dirs). g = filter (\<lambda>f. File.path f = d) ?fs"
    by blast
  from k have "map fst (objectEntries dirs) = [''src'', ''lib'']"
    by (simp add: exampleFile_def)
  then obtain g1 g2 where oe: "objectEntries dirs = [(''src'', g1), (''lib'', g2)]"
    by (auto simp add: map_eq_Cons_conv)
  with g have "g1 = [exampleFile ''src'' ''a.ts'', exampleFile ''src'' ''c.ts'']"
    and "g2 = [exampleFile ''lib'' ''b.ts'']"
    by (simp_all add: exampleFile_def)
  with oe have oe': "objectEntries dirs
     = [(''src'', [exampleFile ''src'' ''a.ts'', exampleFile ''src'' ''c.ts'']),
        (''lib'', [exampleFile ''lib'' ''b.ts''])]" by simp
  have r': "reduce groupByPath [] ?fs
     = Inr [(''src'', [exampleFile ''src'' ''a.ts'', exampleFile ''src'' ''c.ts'']),
            (''lib'', [exampleFile ''lib'' ''b.ts''])]"
    by (simp add: object_defs exampleFile_def)
  let ?ns = "[exampleFile ''src'' ''a.ts'', exampleFile ''2020'' ''b.ts'',
       exampleFile ''7'' ''c.ts'']"
  have h2: "\<forall>f\<in>set ?ns. File.path f \<notin> set objectPrototypeKeys"
    by (simp add: exampleFile_def objectPrototypeKeys_def)
  from groupByPath_order [OF h2] obtain dirs2 where
    r2: "reduce groupByPath [] ?ns = Inr dirs2"
    and k2: "map fst (objectEntries dirs2) =
         sort_key decimalValue (filter isArrayIndex (firstSeen (map File.path ?ns)))
         @ filter (\<lambda>d. \<not> isArrayIndex d) (firstSeen (map File.path ?ns))"
    by blast
  from k2 have k2': "map fst (objectEntries dirs2) = [''7'', ''2020'', ''src'']"
    by (simp add: exampleFile_def isArrayIndex_def isDigit_def decimalValue_def)
  have r2': "reduce groupByPath [] ?ns
     = Inr [(''src'', [exampleFile ''src'' ''a.ts'']), (''2020'', [exampleFile ''2020'' ''b.ts'']),
            (''7'', [exampleFile ''7'' ''c.ts''])]"
    by (simp add: object_defs exampleFile_def)
  from r r' oe' r2 r2' k2' show ?thesis by simp
qed

subsection \<open>No coverage data\<close>

text \<open>
  C8. When the coverage map is absent or has no file entries, \<^verbatim>\<open>getCoverageTable\<close>
  returns the empty string and throws nothing. The caller then publishes no comment,
  whatever publishing would do, and the run is failed only when tests failed.
\<close>

theorem getCoverageTable_no_coverage:
  assumes "coverageMap results = None \<or> coverageMap results = Some []"
  shows "getCoverageTable lib results cwd = Inr ''''
       \<and> runCoverageAndFinish lib publish ctx shouldCommentCoverage results cwd st
           = (if \<not> success results then setFailed ''Some jest tests failed.'' st else st)"
proof -
  from assms have "getCoverageTable lib results cwd = Inr ''''"
    by (auto simp add: getCoverageTable_def)
  then show ?thesis by (simp add: runCoverageAndFinish_def)
qed

theorem getCoverageTable_no_coverage_witness:
  "coverageMap passedResults = Some []
   \<and> getCoverageTable exampleLib passedResults ''/work/'' = Inr ''''
   \<and> runCoverageAndFinish exampleLib rejectingPublish exampleContext True
        passedResults ''/work/'' \<lparr>failed = None\<rparr> = \<lparr>failed = None\<rparr>
   \<and> coverageMap failedResults = None
   \<and> getCoverageTable exampleLib failedResults ''/work/'' = Inr ''''
   \<and> runCoverageAndFinish exampleLib rejectingPublish exampleContext True
        failedResults ''/work/'' \<lparr>failed = None\<rparr> = \<lparr>failed = Some ''Some jest tests failed.''\<rparr>"
proof -
  have p: "coverageMap passedResults = Some []" by (simp add: passedResults_def)
  have f: "coverageMap failedResults = None" by (simp add: failedResults_def)
  from getCoverageTable_no_coverage [OF disjI2, OF p, of exampleLib "''/work/''"
      rejectingPublish exampleContext True "\<lparr>failed = None\<rparr>"]
    getCoverageTable_no_coverage [OF disjI1, OF f, of exampleLib "''/work/''"
      rejectingPublish exampleContext True "\<lparr>failed = None\<rparr>"]
    p f
  show ?thesis by (simp add: passedResults_def failedResults_def setFailed_def)
qed

section \<open>Properties of the check payload\<close>

lemma replace_prefix: "prefix p s \<Longrightarrow> replace p r s = r @ drop (length p) s"
  by (cases s) auto

lemma replace_absent: "\<not> sublist p s \<Longrightarrow> replace p r s = s"
proof (induction s)
  case Nil
  then show ?case by auto
next
  case (Cons c cs)
  from Cons.prems have np: "\<not> prefix p (c # cs)"
    using prefix_imp_sublist by blast
  from Cons.prems have "\<not> sublist p cs"
    by (meson sublist_Cons_right)
  with Cons.IH np show ?case by simp
qed

lemma map_filter_conv:
  "map f (filter P xs) = concat (map (\<lambda>a. if P a then [f a] else []) xs)"
  by (induction xs) auto

text \<open>
  What the extraction computes. A successful results structure gives no annotation. A
  failing one gives one annotation for each assertion with status \<^verbatim>\<open>failed\<close> and none
  for any other status, in suite order and then assertion order; start and end line are
  the reported line, or 0 when there is no location; the level is \<^verbatim>\<open>failure\<close>; the title
  is the ancestor titles and the own title joined by \<^verbatim>\<open> > \<close>; the message is the failure
  messages joined by two newlines and then stripped of escape sequences. The path is
  computed with \<^verbatim>\<open>replace\<close>: it is the suite name without the working root when the name
  starts with it, and the suite name itself when the working root does not occur in it.
\<close>

lemma getAnnotations_extract:
  "(success results \<longrightarrow> getAnnotations lib results cwd = [])
   \<and> (\<not> success results \<longrightarrow>
        getAnnotations lib results cwd =
          [\<lparr>Annotation.path = replace cwd '''' (TestResult.name s),
            start_line = (case location a of None \<Rightarrow> 0 | Some l \<Rightarrow> line l),
            end_line = (case location a of None \<Rightarrow> 0 | Some l \<Rightarrow> line l),
            annotation_level = ''failure'',
            Annotation.title = join '' > '' (ancestorTitles a @ [AssertionResult.title a]),
            message = strip lib (join ''\<newline>\<newline>''
                        (case failureMessages a of None \<Rightarrow> [] | Some ms \<Rightarrow> ms))\<rparr>.
           s \<leftarrow> testResults results, a \<leftarrow> assertionResults s,
           AssertionResult.status a = ''failed''])
   \<and> (\<not> success results \<longrightarrow>
        length (getAnnotations lib results cwd) =
          (\<Sum>s\<leftarrow>testResults results.
             length (filter (\<lambda>a. AssertionResult.status a = ''failed'') (assertionResults s))))
   \<and> (prefix cwd n \<longrightarrow> replace cwd '''' n = drop (length cwd) n)
   \<and> (\<not> sublist cwd n \<longrightarrow> replace cwd '''' n = n)"
proof (intro conjI impI)
  assume "success results"
  then show "getAnnotations lib results cwd = []" by (simp add: getAnnotations_def)
next
  assume f: "\<not> success results"
  have m: "(case failureMessages a of None \<Rightarrow> '''' | Some ms \<Rightarrow> join ''\<newline>\<newline>'' ms)
      = join ''\<newline>\<newline>'' (case failureMessages a of None \<Rightarrow> [] | Some ms \<Rightarrow> ms)"
    for a :: AssertionResult
    by (simp split: option.splits)
  from f show "getAnnotations lib results cwd =
          [\<lparr>Annotation.path = replace cwd '''' (TestResult.name s),
            start_line = (case location a of None \<Rightarrow> 0 | Some l \<Rightarrow> line l),
            end_line = (case location a of None \<Rightarrow> 0 | Some l \<Rightarrow> line l),
            annotation_level = ''failure'',
            Annotation.title = join '' > '' (ancestorTitles a @ [AssertionResult.title a]),
            message = strip lib (join ''\<newline>\<newline>''
                        (case failureMessages a of None \<Rightarrow> [] | Some ms \<Rightarrow> ms))\<rparr>.
           s \<leftarrow> testResults results, a \<leftarrow> assertionResults s,
           AssertionResult.status a = ''failed'']"
    by (simp add: getAnnotations_def flatMap_def map_filter_conv m)
next
  assume "\<not> success results"
  then show "length (getAnnotations lib results cwd) =
          (\<Sum>s\<leftarrow>testResults results.
             length (filter (\<lambda>a. AssertionResult.status a = ''failed'') (assertionResults s)))"
    by (simp add: getAnnotations_def flatMap_def length_concat comp_def)
next
  assume "prefix cwd n"
  then show "replace cwd '''' n = drop (length cwd) n" by (simp add: replace_prefix)
next
  assume "\<not> sublist cwd n"
  then show "replace cwd '''' n = n" by (rule replace_absent)
qed

lemma getAnnotations_extract_example:
  "success passedResults
   \<and> getAnnotations exampleLib passedResults ''/work/'' = []
   \<and> \<not> success failedResults
   \<and> getAnnotations exampleLib failedResults ''/work/'' =
       [\<lparr>Annotation.path = ''foo.test'', start_line = 12, end_line = 12,
         annotation_level = ''failure'', Annotation.title = ''Suite > does X'',
         message = ''expected 1\<newline>\<newline>received 2''\<rparr>,
        \<lparr>Annotation.path = ''/srvbar.test'', start_line = 0, end_line = 0,
         annotation_level = ''failure'', Annotation.title = ''Suite > does X'',
         message = ''''\<rparr>]
   \<and> prefix ''/work/'' ''/work/foo.test''
   \<and> replace ''/work/'' '''' ''/work/foo.test'' = ''foo.test''
   \<and> \<not> sublist ''/work/'' ''/tmp/foo.test''
   \<and> replace ''/work/'' '''' ''/tmp/foo.test'' = ''/tmp/foo.test''"
proof -
  have ns: "\<not> sublist ''/work/'' ''/tmp/foo.test''"
    by (simp add: sublist_Cons_right)
  from getAnnotations_extract [of passedResults exampleLib "''/work/''" "''/work/foo.test''"]
    getAnnotations_extract [of failedResults exampleLib "''/work/''" "''/tmp/foo.test''"] ns
  show ?thesis by (simp add: example_defs)
qed

text \<open>
  C5. The code departs from the claim on the path of a suite whose name contains the
  working root without starting with it: \<^verbatim>\<open>result.name.replace(cwd, "")\<close> then cuts the
  working root out of the middle of the name. With working root \<^verbatim>\<open>/work/\<close>, the failing
  suite \<^verbatim>\<open>/srv/work/bar.test\<close> has no working-root prefix to strip, so its path is to be
  the name itself, and the extraction returns \<^verbatim>\<open>/srvbar.test\<close>. Everything else at this
  input is as the claim says.
\<close>

theorem getAnnotations_failing_input:
  "\<not> success failedResults
   \<and> map TestResult.name (testResults failedResults) = [''/work/foo.test'', ''/srv/work/bar.test'']
   \<and> getAnnotations exampleLib failedResults ''/work/'' =
       [\<lparr>Annotation.path = ''foo.test'', start_line = 12, end_line = 12,
         annotation_level = ''failure'', Annotation.title = ''Suite > does X'',
         message = ''expected 1\<newline>\<newline>received 2''\<rparr>,
        \<lparr>Annotation.path = ''/srvbar.test'', start_line = 0, end_line = 0,
         annotation_level = ''failure'', Annotation.title = ''Suite > does X'',
         message = ''''\<rparr>]
   \<and> stripPrefix ''/work/'' ''/srv/work/bar.test'' = ''/srv/work/bar.test''
   \<and> Annotation.path (getAnnotations exampleLib failedResults ''/work/'' ! 1)
       \<noteq> stripPrefix ''/work/'' (TestResult.name (testResults failedResults ! 1))"
  by (simp add: getAnnotations_def flatMap_def example_defs stripPrefix_def)

text \<open>
  C6. For a successful results structure the summary is the passed-test count, the words
  \<^verbatim>\<open>tests passing in\<close>, the passed-suite count and \<^verbatim>\<open>suite\<close>, with the plural
  \<^verbatim>\<open>s\<close> exactly when the passed-suite count is greater than 1, and a full stop. For a
  failing structure it is \<^verbatim>\<open>Failed tests: f/t. Failed suites: f/s.\<close> where \<open>f\<close> is the
  failed-test count in both ratios, \<open>t\<close> the total of tests and \<open>s\<close> the total of
  suites.
\<close>

theorem getCheckPayload_summary:
  "(success results \<longrightarrow>
      summary (output (getCheckPayload lib ctx results cwd std)) =
        showInt (numPassedTests results) @ '' tests passing in ''
        @ showInt (numPassedTestSuites results)
        @ (if numPassedTestSuites results > 1 then '' suites.'' else '' suite.''))
   \<and> (\<not> success results \<longrightarrow>
      summary (output (getCheckPayload lib ctx results cwd std)) =
        ''Failed tests: '' @ showInt (numFailedTests results) @ ''/''
        @ showInt (numTotalTests results) @ ''. Failed suites: ''
        @ showInt (numFailedTests results) @ ''/'' @ showInt (numTotalTestSuites results) @ ''.'')"
  by (simp add: getCheckPayload_def Let_def)

theorem getCheckPayload_summary_witness:
  "success passedResults
   \<and> summary (output (getCheckPayload exampleLib exampleContext passedResults ''/work/''
        (Some ''out'', None))) = ''12 tests passing in 2 suites.''
   \<and> summary (output (getCheckPayload exampleLib exampleContext
        (passedResults\<lparr>numPassedTestSuites := 1\<rparr>) ''/work/''
        (Some ''out'', None))) = ''12 tests passing in 1 suite.''
   \<and> \<not> success failedResults
   \<and> summary (output (getCheckPayload exampleLib exampleContext failedResults ''/work/''
        (Some ''out'', None))) = ''Failed tests: 1/3. Failed suites: 1/2.''"
  using getCheckPayload_summary [of passedResults exampleLib exampleContext "''/work/''"
      "(Some ''out'', None)"]
    getCheckPayload_summary [of "passedResults\<lparr>numPassedTestSuites := 1\<rparr>" exampleLib
      exampleContext "''/work/''" "(Some ''out'', None)"]
    getCheckPayload_summary [of failedResults exampleLib exampleContext "''/work/''"
      "(Some ''out'', None)"]
  by (simp add: passedResults_def failedResults_def showInt_def showNat.simps)

lemma getCheckPayload_text:
  "text (output (getCheckPayload lib ctx results cwd std)) = truncateRight (capturedText std) CHAR_LIMIT"
  by (cases std) (simp add: getCheckPayload_def capturedText_def Let_def split: option.splits)

lemma truncateRight_short: "int (length s) < len \<Longrightarrow> truncateRight s len = s"
  by (simp add: truncateRight_def)

lemma truncateRight_long:
  "len < int (length s) \<Longrightarrow> truncateRight s len = take (nat len) s @ ''...''"
  by (simp add: truncateRight_def)

lemma truncateRight_length: "0 \<le> len \<Longrightarrow> int (length (truncateRight s len)) \<le> len + 3"
  by (auto simp add: truncateRight_def)

text \<open>
  C7. As stated the claim fails: the ellipsis is appended after the cut at the limit, so
  a truncated body has 60003 characters, more than the limit of 60000.
\<close>

theorem getCheckPayload_text_counterexample:
  "\<not> int (length (text (output (getCheckPayload exampleLib exampleContext failedResults ''/work/''
          (Some (replicate 60001 (CHR ''a'')), None))))) \<le> CHAR_LIMIT"
  by (simp add: getCheckPayload_def Let_def truncateRight_def CHAR_LIMIT_def)

text \<open>
  C7, amended. The body text is the captured standard output followed, when the standard
  error is not empty, by a blank line and the standard error; a text shorter than the
  limit of 60000 characters is passed unchanged, and a text longer than the limit is cut to
  its first 60000 characters followed by the ellipsis marker. The body text never exceeds
  the limit by more than the three characters of the marker.
\<close>

theorem getCheckPayload_text_bounded:
  "(int (length (capturedText std)) < CHAR_LIMIT \<longrightarrow>
      text (output (getCheckPayload lib ctx results cwd std)) = capturedText std)
   \<and> (CHAR_LIMIT < int (length (capturedText std)) \<longrightarrow>
      text (output (getCheckPayload lib ctx results cwd std))
        = take 60000 (capturedText std) @ ''...'')
   \<and> int (length (text (output (getCheckPayload lib ctx results cwd std)))) \<le> CHAR_LIMIT + 3"
proof (intro conjI impI)
  assume "int (length (capturedText std)) < CHAR_LIMIT"
  then show "text (output (getCheckPayload lib ctx results cwd std)) = capturedText std"
    by (simp add: getCheckPayload_text truncateRight_short)
next
  assume "CHAR_LIMIT < int (length (capturedText std))"
  then show "text (output (getCheckPayload lib ctx results cwd std))
        = take 60000 (capturedText std) @ ''...''"
    by (simp add: getCheckPayload_text truncateRight_long) (simp add: CHAR_LIMIT_def)
next
  show "int (length (text (output (getCheckPayload lib ctx results cwd std)))) \<le> CHAR_LIMIT + 3"
    unfolding getCheckPayload_text by (rule truncateRight_length) (simp add: CHAR_LIMIT_def)
qed

theorem getCheckPayload_text_bounded_witness:
  "int (length (capturedText (Some ''out'', Some ''err''))) < CHAR_LIMIT
   \<and> text (output (getCheckPayload exampleLib exampleContext failedResults ''/work/''
        (Some ''out'', Some ''err''))) = ''out\<newline>\<newline>err''
   \<and> CHAR_LIMIT < int (length (capturedText (Some (replicate 60001 (CHR ''a'')), Some '''')))
   \<and> text (output (getCheckPayload exampleLib exampleContext failedResults ''/work/''
        (Some (replicate 60001 (CHR ''a'')), Some '''')))
      = replicate 60000 (CHR ''a'') @ ''...''"
  using getCheckPayload_text_bounded [of "(Some ''out'', Some ''err'')" exampleLib exampleContext
      failedResults "''/work/''"]
    getCheckPayload_text_bounded [of "(Some (replicate 60001 (CHR ''a'')), Some '''')" exampleLib
      exampleContext failedResults "''/work/''"]
  by (simp add: capturedText_def CHAR_LIMIT_def)

end
